theory Spec2Isabelle
  imports Main "HOL-Library.Word"
begin

section \<open>Data model\<close>

text \<open>
  The notebooks work on rasters of 8-bit unsigned pixels (OPERA DSWx and DIST layers);
  \<^verbatim>\<open>relabel_pixels\<close> converts the supplied category codes with
  \<^verbatim>\<open>np.array(values, dtype=np.uint8)\<close> and builds the new labels with
  \<^verbatim>\<open>dtype=values.dtype\<close>. Pixels, codes and labels are therefore \<open>8 word\<close>:
  addition wraps modulo 256 and the order is the unsigned one.

  The arguments \<^verbatim>\<open>null_val\<close>, \<^verbatim>\<open>transparent_val\<close> and \<^verbatim>\<open>start\<close> are
  Python integers; they are taken in the range of the element type, 0 to 255, as in every
  call of the notebooks.

  The values of a \<^verbatim>\<open>DataArray\<close> are kept row by row. A Python \<^verbatim>\<open>dict\<close> is an
  association list in insertion order with pairwise distinct keys.
\<close>

type_synonym uint8 = "8 word"

type_synonym data_array = "uint8 list list"

type_synonym relabel_dict = "(uint8 \<times> uint8) list"

datatype error =
    AssertionError string
  | IndexError
  | ValueError string

section \<open>Library primitives used by \<^verbatim>\<open>relabel_pixels\<close>\<close>

text \<open>
  \<^verbatim>\<open>d.where(d != v, other=w)\<close>: keeps a pixel where the condition holds and puts
  \<open>w\<close> elsewhere.
\<close>

definition where_ne :: "data_array \<Rightarrow> uint8 \<Rightarrow> uint8 \<Rightarrow> data_array" where
  "where_ne d v other = map (map (\<lambda>p. if p \<noteq> v then p else other)) d"

text \<open>\<^verbatim>\<open>np.unique\<close>: the distinct values, ascending.\<close>

definition np_unique :: "uint8 list \<Rightarrow> uint8 list" where
  "np_unique xs = sort (remdups xs)"

text \<open>
  \<^verbatim>\<open>np.arange(start=start, stop=start+n, dtype=uint8)\<close>: \<open>n\<close> entries, the
  \<open>i\<close>-th being \<open>start + i\<close> in 8-bit arithmetic. The stop value only fixes the
  number of entries; the entries are filled in the element type, so a label past 255
  wraps around to 0. One case differs between NumPy versions: when already the second
  entry passes 255 (\<open>start = 255\<close> with two or more entries), NumPy 2 raises
  \<^verbatim>\<open>OverflowError\<close> where NumPy 1 wraps. The model wraps there too, so every
  call that succeeds in the code succeeds in the model with the same result; the statement
  on when the call fails assumes \<open>start + n \<le> 256\<close>.
\<close>

definition np_arange :: "uint8 \<Rightarrow> nat \<Rightarrow> uint8 list" where
  "np_arange start n = map (\<lambda>i. start + of_nat i) [0..<n]"

text \<open>
  \<^verbatim>\<open>d[k] = v\<close>: an existing key keeps its position and takes the new value, a new key
  goes to the end. \<^verbatim>\<open>dict(zip(ks, vs))\<close> inserts the pairs from left to right.
\<close>

fun dict_set :: "('k \<times> 'v) list \<Rightarrow> 'k \<Rightarrow> 'v \<Rightarrow> ('k \<times> 'v) list" where
  "dict_set [] k v = [(k, v)]"
| "dict_set ((k', v') # d) k v =
     (if k' = k then (k', v) # d else (k', v') # dict_set d k v)"

definition dict_zip :: "'k list \<Rightarrow> 'v list \<Rightarrow> ('k \<times> 'v) list" where
  "dict_zip ks vs = foldl (\<lambda>d (k, v). dict_set d k v) [] (zip ks vs)"

section \<open>\<^verbatim>\<open>relabel_pixels\<close>\<close>

text \<open>
  The loop \<^verbatim>\<open>for old, new in relabel.items()\<close>: an entry that maps a code to itself is
  skipped, any other entry rewrites, in the current array, every pixel equal to \<open>old\<close>.
\<close>

fun relabel_loop :: "relabel_dict \<Rightarrow> data_array \<Rightarrow> data_array" where
  "relabel_loop [] new_data = new_data"
| "relabel_loop ((old, new) # items) new_data =
     (if new = old then relabel_loop items new_data
      else relabel_loop items (where_ne new_data old new))"

text \<open>
  The codes after sorting, and after the missing code has been taken out when
  \<^verbatim>\<open>replace_null\<close> is set: the variable \<^verbatim>\<open>values\<close> at the point where
  \<^verbatim>\<open>n_values\<close> is computed. An empty (falsy) \<^verbatim>\<open>values\<close> argument makes the
  function take the codes from the data.
\<close>

definition sorted_values :: "data_array \<Rightarrow> uint8 list \<Rightarrow> uint8 list" where
  "sorted_values data values =
     (if values \<noteq> [] then sort values else sort (np_unique (concat data)))"

definition collapsed_values :: "data_array \<Rightarrow> uint8 list \<Rightarrow> uint8 \<Rightarrow> bool \<Rightarrow> uint8 list" where
  "collapsed_values data values null_val replace_null =
     (if replace_null then filter (\<lambda>v. v \<noteq> null_val) (sorted_values data values)
      else sorted_values data values)"

definition relabel_pixels ::
  "data_array \<Rightarrow> uint8 list \<Rightarrow> uint8 \<Rightarrow> uint8 \<Rightarrow> bool \<Rightarrow> uint8 \<Rightarrow>
     error + (data_array \<times> relabel_dict)" where
  "relabel_pixels data values null_val transparent_val replace_null start =
     (let new_data = data;
          values = (if values \<noteq> [] then sort values
                    else sort (np_unique (concat data)));
          new_data = (if replace_null then where_ne new_data null_val transparent_val
                      else new_data);
          values = (if replace_null then filter (\<lambda>v. v \<noteq> null_val) values
                    else values);
          n_values = length values;
          new_values = np_arange start n_values
      in if transparent_val \<notin> set new_values
         then Inl (AssertionError ''transparent_val not in new_values'')
         else let relabel = dict_zip values new_values
              in Inr (relabel_loop relabel new_data, relabel))"

text \<open>
  What the whole loop does to one pixel: each entry in turn replaces the current value when
  it equals the entry's key. (A skipped entry, with \<open>new = old\<close>, would replace a value
  by itself.)
\<close>

fun relabel_px :: "relabel_dict \<Rightarrow> uint8 \<Rightarrow> uint8" where
  "relabel_px [] p = p"
| "relabel_px ((old, new) # items) p = relabel_px items (if p = old then new else p)"

text \<open>
  Undoing a relabelling, in the words of the round-trip property: the inverse dictionary
  \<^verbatim>\<open>{new: old for old, new in relabel.items()}\<close>, and the array in which every pixel
  that is a key of a dictionary is replaced by its entry, all pixels at once.
\<close>

definition invert_relabel :: "relabel_dict \<Rightarrow> relabel_dict" where
  "invert_relabel relabel = dict_zip (map snd relabel) (map fst relabel)"

definition apply_dict :: "relabel_dict \<Rightarrow> data_array \<Rightarrow> data_array" where
  "apply_dict m d = map (map (\<lambda>p. case map_of m p of None \<Rightarrow> p | Some q \<Rightarrow> q)) d"

section \<open>\<^verbatim>\<open>search_to_dataframe\<close>\<close>

text \<open>
  A granule of a search result carries an identifier, a dictionary of properties and a
  dictionary of assets, each asset with a URL. Property values are not inspected and stay
  abstract. The argument of the model is the list \<^verbatim>\<open>list(search.items())\<close>.
\<close>

record 'v granule =
  item_id :: string
  properties :: "(string \<times> 'v) list"
  assets :: "(string \<times> string) list"

datatype 'v cell = PyNone | Prop 'v | Str string

record 'v dataframe =
  columns :: "string list"
  data_rows :: "'v cell list list"

text \<open>\<^verbatim>\<open>s.split(c)\<close> for a one-character separator.\<close>

fun split_on :: "char \<Rightarrow> string \<Rightarrow> string list" where
  "split_on c [] = [[]]"
| "split_on c (x # xs) =
     (if x = c then [] # split_on c xs
      else (case split_on c xs of
              [] \<Rightarrow> [[x]]
            | w # ws \<Rightarrow> (x # w) # ws))"

text \<open>\<^verbatim>\<open>granule.id.split('_')[3]\<close>: an identifier with fewer than four parts raises.\<close>

definition tile_id :: "'v granule \<Rightarrow> error + string" where
  "tile_id g =
     (let parts = split_on CHR ''_'' (item_id g)
      in if 3 < length parts then Inr (parts ! 3) else Inl IndexError)"

text \<open>
  The rows of one granule, one per asset:
  \<^verbatim>\<open>[g.properties.get(k, None) for k in props] + [a, g.assets[a].href, t]\<close>.
\<close>

definition granule_rows :: "string list \<Rightarrow> 'v granule \<Rightarrow> string \<Rightarrow> 'v cell list list" where
  "granule_rows props g t =
     map (\<lambda>(a, href).
            map (\<lambda>k. case map_of (properties g) k of None \<Rightarrow> PyNone | Some v \<Rightarrow> Prop v) props
            @ [Str a, Str href, Str t])
         (assets g)"

text \<open>
  The generator \<^verbatim>\<open>rows\<close>, consumed by \<^verbatim>\<open>pd.concat\<close>: granules in order, each
  paired with its tile identifier; the first identifier that cannot be split ends the run.
\<close>

fun all_rows :: "string list \<Rightarrow> 'v granule list \<Rightarrow> error + 'v cell list list" where
  "all_rows props [] = Inr []"
| "all_rows props (g # gs) =
     (case tile_id g of
        Inl e \<Rightarrow> Inl e
      | Inr t \<Rightarrow>
          (case all_rows props gs of
             Inl e \<Rightarrow> Inl e
           | Inr rs \<Rightarrow> Inr (granule_rows props g t @ rs)))"

text \<open>
  \<^verbatim>\<open>props\<close> is made from a Python set, whose order is not specified; the model lists
  the property names in order of first occurrence. \<^verbatim>\<open>pd.concat\<close> refuses an empty
  sequence of frames; otherwise it puts the one-row frames below one another.
\<close>

definition search_to_dataframe :: "'v granule list \<Rightarrow> error + 'v dataframe" where
  "search_to_dataframe granules =
     (if granules = [] then Inl (AssertionError ''Error: empty list of search results'')
      else
        let props = remdups (concat (map (\<lambda>g. map fst (properties g)) granules))
        in case all_rows props granules of
             Inl e \<Rightarrow> Inl e
           | Inr rws \<Rightarrow>
               if rws = [] then Inl (ValueError ''No objects to concatenate'')
               else
                 let df = \<lparr>columns = props @ [''asset'', ''href'', ''tile_id''],
                           data_rows = rws\<rparr>
                 in if length (data_rows df) = 0 then Inl (AssertionError ''Empty DataFrame'')
                    else Inr df)"

section \<open>Stacking rasters along time\<close>












section \<open>Basic facts\<close>

lemma relabel_pixels_unfold:
  "relabel_pixels data values null_val transparent_val replace_null start =
     (let vs = collapsed_values data values null_val replace_null;
          d = (if replace_null then where_ne data null_val transparent_val else data);
          nv = np_arange start (length vs)
      in if transparent_val \<notin> set nv
         then Inl (AssertionError ''transparent_val not in new_values'')
         else Inr (relabel_loop (dict_zip vs nv) d, dict_zip vs nv))"
  by (simp add: relabel_pixels_def collapsed_values_def sorted_values_def Let_def)

subsection \<open>Dictionaries, ranges and the code list\<close>

lemma set_dict_set: "set (dict_set d k v) \<subseteq> insert (k, v) (set d)"
  by (induction d k v rule: dict_set.induct) auto

lemma keys_dict_set: "fst ` set (dict_set d k v) = insert k (fst ` set d)"
  by (induction d k v rule: dict_set.induct) auto

lemma dict_set_fresh: "k \<notin> fst ` set d \<Longrightarrow> dict_set d k v = d @ [(k, v)]"
  by (induction d k v rule: dict_set.induct) auto

lemma set_foldl_dict_set:
  "set (foldl (\<lambda>d (k, v). dict_set d k v) acc ps) \<subseteq> set acc \<union> set ps"
proof (induction ps arbitrary: acc)
  case Nil
  then show ?case by simp
next
  case (Cons p ps)
  obtain k v where p: "p = (k, v)" by (cases p)
  have "set (foldl (\<lambda>d (k, v). dict_set d k v) (dict_set acc k v) ps)
          \<subseteq> set (dict_set acc k v) \<union> set ps"
    by (rule Cons.IH)
  also have "\<dots> \<subseteq> set acc \<union> set (p # ps)"
    using set_dict_set [of acc k v] p by auto
  finally show ?case by (simp add: p)
qed

lemma set_dict_zip: "set (dict_zip ks vs) \<subseteq> set (zip ks vs)"
  using set_foldl_dict_set [of "[]" "zip ks vs"] by (simp add: dict_zip_def)

lemma foldl_dict_set_distinct:
  "distinct (map fst ps) \<Longrightarrow> fst ` set acc \<inter> fst ` set ps = {} \<Longrightarrow>
     foldl (\<lambda>d (k, v). dict_set d k v) acc ps = acc @ ps"
proof (induction ps arbitrary: acc)
  case Nil
  then show ?case by simp
next
  case (Cons p ps)
  obtain k v where p: "p = (k, v)" by (cases p)
  from Cons.prems p have fresh: "k \<notin> fst ` set acc" by auto
  have step: "dict_set acc k v = acc @ [(k, v)]"
    by (rule dict_set_fresh [OF fresh])
  have "foldl (\<lambda>d (k, v). dict_set d k v) (acc @ [(k, v)]) ps = (acc @ [(k, v)]) @ ps"
  proof (rule Cons.IH)
    show "distinct (map fst ps)" using Cons.prems by simp
    show "fst ` set (acc @ [(k, v)]) \<inter> fst ` set ps = {}"
      using Cons.prems p by force
  qed
  then show ?case by (simp add: p step)
qed

lemma dict_zip_distinct: "distinct ks \<Longrightarrow> dict_zip ks vs = zip ks vs"
proof -
  assume d: "distinct ks"
  have "distinct (map fst (zip ks vs))"
    using d by (simp add: map_fst_zip_take)
  then show ?thesis
    using foldl_dict_set_distinct [of "zip ks vs" "[]"] by (simp add: dict_zip_def)
qed

lemma length_np_arange: "length (np_arange start n) = n"
  by (simp add: np_arange_def)

lemma nth_np_arange: "i < n \<Longrightarrow> np_arange start n ! i = start + of_nat i"
  by (simp add: np_arange_def)

lemma unat_np_arange:
  fixes start :: uint8
  assumes "unat start + n \<le> 256" and "i < n"
  shows "unat (start + of_nat i) = unat start + i"
proof -
  have "unat (of_nat i :: uint8) = i"
    using assms by (simp add: unat_of_nat)
  then show ?thesis
    using assms unat_add_lem [of start "of_nat i"] by simp
qed

lemma unat_image_np_arange:
  fixes start :: uint8
  assumes "unat start + n \<le> 256"
  shows "unat ` set (np_arange start n) = {unat start ..< unat start + n}"
proof -
  have "unat ` set (np_arange start n) = (\<lambda>i. unat (start + of_nat i)) ` {0..<n}"
    by (simp add: np_arange_def image_image)
  also have "\<dots> = (\<lambda>i. unat start + i) ` {0..<n}"
    by (rule image_cong) (simp_all add: unat_np_arange [OF assms])
  also have "\<dots> = {unat start ..< unat start + n}"
    by (auto simp: image_iff)
  finally show ?thesis .
qed

lemma mem_np_arange_iff:
  fixes start :: uint8
  assumes "unat start + n \<le> 256"
  shows "w \<in> set (np_arange start n) \<longleftrightarrow> unat w \<in> {unat start ..< unat start + n}"
proof
  assume "w \<in> set (np_arange start n)"
  then have "unat w \<in> unat ` set (np_arange start n)"
    by (rule imageI)
  then show "unat w \<in> {unat start ..< unat start + n}"
    by (simp only: unat_image_np_arange [OF assms])
next
  assume "unat w \<in> {unat start ..< unat start + n}"
  then have "unat w \<in> unat ` set (np_arange start n)"
    by (simp only: unat_image_np_arange [OF assms])
  then obtain v where v: "v \<in> set (np_arange start n)" and eq: "unat w = unat v"
    by (rule imageE)
  from eq have "w = v"
    by (simp add: word_unat_eq_iff)
  with v show "w \<in> set (np_arange start n)"
    by simp
qed

lemma sorted_filter_plain: "sorted xs \<Longrightarrow> sorted (filter P xs)"
  using sorted_filter [of id xs P] by simp

lemma sorted_collapsed_values: "sorted (collapsed_values data values null_val replace_null)"
  by (simp add: collapsed_values_def sorted_values_def sorted_filter_plain)

lemma distinct_collapsed_values:
  "distinct values \<Longrightarrow> distinct (collapsed_values data values null_val replace_null)"
  by (simp add: collapsed_values_def sorted_values_def np_unique_def)

lemma null_collapsed_values:
  "null_val \<notin> set (collapsed_values data values null_val True)"
  by (simp add: collapsed_values_def)

lemma relabel_pixels_Inr:
  assumes "relabel_pixels data values null_val transparent_val replace_null start
             = Inr (new_data, relabel)"
  shows "transparent_val \<in> set (np_arange start
             (length (collapsed_values data values null_val replace_null)))"
    and "relabel = dict_zip (collapsed_values data values null_val replace_null)
             (np_arange start (length (collapsed_values data values null_val replace_null)))"
    and "new_data = relabel_loop relabel
             (if replace_null then where_ne data null_val transparent_val else data)"
  using assms by (auto simp: relabel_pixels_unfold Let_def split: if_splits)

section \<open>The transparent-code guard\<close>

text \<open>
  Claim C3, as the code has it. The assertion of \<^verbatim>\<open>relabel_pixels\<close> tests
  \<^verbatim>\<open>transparent_val in new_values\<close>. When the new labels do not pass 255
  (\<open>start + n \<le> 256\<close> for the \<open>n\<close> codes left after sorting and missing-collapse),
  the call fails with an assertion error exactly when the transparent code lies outside the
  interval from \<open>start\<close> up to, not including, \<open>start + n\<close>, and succeeds otherwise.
  A successful call has the transparent code in that interval, and when the supplied codes
  are pairwise distinct the image of the returned dictionary is exactly that interval, so
  it contains the transparent code. Membership of the transparent code in the supplied
  codes is not tested.
\<close>

theorem relabel_pixels_transparent_guard:
  assumes fit: "unat start + length (collapsed_values data values null_val replace_null) \<le> 256"
  shows
    "(relabel_pixels data values null_val transparent_val replace_null start
        = Inl (AssertionError ''transparent_val not in new_values'')
      \<longleftrightarrow> unat transparent_val \<notin> {unat start ..<
            unat start + length (collapsed_values data values null_val replace_null)})
     \<and> (unat transparent_val \<in> {unat start ..<
            unat start + length (collapsed_values data values null_val replace_null)}
          \<longrightarrow> (\<exists>new_data relabel.
                 relabel_pixels data values null_val transparent_val replace_null start
                   = Inr (new_data, relabel)))
     \<and> (\<forall>new_data relabel.
          relabel_pixels data values null_val transparent_val replace_null start
            = Inr (new_data, relabel)
          \<longrightarrow> unat transparent_val \<in> {unat start ..<
                 unat start + length (collapsed_values data values null_val replace_null)}
              \<and> (distinct values
                   \<longrightarrow> unat ` snd ` set relabel
                         = {unat start ..<
                              unat start
                              + length (collapsed_values data values null_val replace_null)}
                       \<and> transparent_val \<in> snd ` set relabel))"
proof -
  let ?vs = "collapsed_values data values null_val replace_null"
  let ?nv = "np_arange start (length ?vs)"
  let ?I = "{unat start ..< unat start + length ?vs}"
  note mem = mem_np_arange_iff [OF fit]
  have fail: "relabel_pixels data values null_val transparent_val replace_null start
        = Inl (AssertionError ''transparent_val not in new_values'')
      \<longleftrightarrow> unat transparent_val \<notin> ?I"
    by (simp add: relabel_pixels_unfold Let_def mem)
  have succeed: "unat transparent_val \<in> ?I
      \<longrightarrow> (\<exists>new_data relabel.
             relabel_pixels data values null_val transparent_val replace_null start
               = Inr (new_data, relabel))"
    by (simp add: relabel_pixels_unfold Let_def mem)
  have post: "unat transparent_val \<in> ?I
              \<and> (distinct values
                   \<longrightarrow> unat ` snd ` set relabel = ?I \<and> transparent_val \<in> snd ` set relabel)"
    if ok: "relabel_pixels data values null_val transparent_val replace_null start
              = Inr (new_data, relabel)" for new_data relabel
  proof (intro conjI impI)
    have tin: "transparent_val \<in> set ?nv"
      by (rule relabel_pixels_Inr(1) [OF ok])
    then show "unat transparent_val \<in> ?I"
      by (simp only: mem)
    assume d: "distinct values"
    have "relabel = zip ?vs ?nv"
      using relabel_pixels_Inr(2) [OF ok] dict_zip_distinct [OF distinct_collapsed_values [OF d]]
      by simp
    then have "map snd relabel = ?nv"
      by (simp add: length_np_arange)
    then have img: "snd ` set relabel = set ?nv"
      by (metis set_map)
    show "unat ` snd ` set relabel = ?I"
      by (simp only: img unat_image_np_arange [OF fit])
    show "transparent_val \<in> snd ` set relabel"
      using tin by (simp only: img)
  qed
  from fail succeed post show ?thesis
    by blast
qed

text \<open>
  The guard of C3 at the codes \<open>0, 1, 255\<close>: two codes are left, transparent code 0
  passes and the image of the dictionary is \<open>0, 1\<close>; transparent code 7 fails.
\<close>

theorem relabel_pixels_transparent_guard_witness:
  "relabel_pixels [[0, 1, 255]] [0, 1, 255] 255 0 True 0 = Inr ([[0, 1, 0]], [(0, 0), (1, 1)])
   \<and> distinct [0, 1, 255 :: uint8]
   \<and> length (collapsed_values [[0, 1, 255]] [0, 1, 255] 255 True) = 2
   \<and> unat (0 :: uint8) \<in> {unat (0 :: uint8) ..< unat (0 :: uint8) + 2}
   \<and> unat ` snd ` set [(0 :: uint8, 0 :: uint8), (1, 1)] = {unat (0 :: uint8) ..< unat (0 :: uint8) + 2}
   \<and> (0 :: uint8) \<in> snd ` set [(0 :: uint8, 0 :: uint8), (1, 1)]
   \<and> relabel_pixels [[0, 1, 255]] [0, 1, 255] 255 7 True 0
         = Inl (AssertionError ''transparent_val not in new_values'')
   \<and> unat (7 :: uint8) \<notin> {unat (0 :: uint8) ..< unat (0 :: uint8) + 2}"
proof -
  have run: "relabel_pixels [[0, 1, 255]] [0, 1, 255] 255 0 True 0
               = Inr ([[0, 1, 0]], [(0, 0), (1, 1)])"
    by code_simp
  have d: "distinct [0, 1, 255 :: uint8]"
    by simp
  have len: "length (collapsed_values [[0, 1, 255]] [0, 1, 255] 255 True) = 2"
    by code_simp
  have fit: "unat (0 :: uint8) + length (collapsed_values [[0, 1, 255]] [0, 1, 255] 255 True)
               \<le> 256"
    by (simp add: len)
  have fail: "relabel_pixels [[0, 1, 255]] [0, 1, 255] 255 7 True 0
                = Inl (AssertionError ''transparent_val not in new_values'')"
    by code_simp
  note ok = relabel_pixels_transparent_guard
    [of 0 "[[0, 1, 255]]" "[0, 1, 255]" 255 True 0, OF fit,
     THEN conjunct2, THEN conjunct2, rule_format, OF run]
  note ko = relabel_pixels_transparent_guard
    [of 0 "[[0, 1, 255]]" "[0, 1, 255]" 255 True 7, OF fit, THEN conjunct1, THEN iffD1, OF fail]
  have a: "unat (0 :: uint8) \<in> {unat (0 :: uint8) ..< unat (0 :: uint8) + 2}"
    using ok [THEN conjunct1, unfolded len] .
  have b: "unat ` snd ` set [(0 :: uint8, 0 :: uint8), (1, 1)]
             = {unat (0 :: uint8) ..< unat (0 :: uint8) + 2}"
    using ok [THEN conjunct2, rule_format, OF d, THEN conjunct1, unfolded len] .
  have c: "(0 :: uint8) \<in> snd ` set [(0 :: uint8, 0 :: uint8), (1, 1)]"
    using ok [THEN conjunct2, rule_format, OF d, THEN conjunct2] .
  have e: "unat (7 :: uint8) \<notin> {unat (0 :: uint8) ..< unat (0 :: uint8) + 2}"
    using ko [unfolded len] .
  from run d len a b c fail e show ?thesis
    by (intro conjI)
qed

text \<open>
  Claim C3 as stated fails: the transparent code 0 is not among the supplied codes
  \<open>1, 2, 3\<close>, yet the call succeeds, and the returned dictionary has no entry for 0.
\<close>

theorem relabel_pixels_transparent_counterexample:
  "(0 :: uint8) \<notin> set [1, 2, 3]
   \<and> relabel_pixels [[1, 2, 3]] [1, 2, 3] 255 0 True 0
        = Inr ([[0, 1, 2]], [(1, 0), (2, 1), (3, 2)])
   \<and> map_of [(1, 0), (2, 1), (3, 2 :: uint8)] (0 :: uint8) = None"
  by code_simp

section \<open>The image of the relabelling dictionary\<close>

text \<open>
  Claim C4, as the code has it. When the supplied codes are pairwise distinct and the new
  labels do not pass 255 (\<open>start + n \<le> 256\<close> for the \<open>n\<close> codes left after
  missing-collapse), a successful call returns a dictionary with \<open>n\<close> entries whose
  image, read as numbers, is exactly the interval from \<open>start\<close> up to, not including,
  \<open>start + n\<close>.
\<close>

theorem relabel_pixels_range_dense:
  assumes ok: "relabel_pixels data values null_val transparent_val replace_null start
                 = Inr (new_data, relabel)"
    and d: "distinct values"
    and fit: "unat start + length (collapsed_values data values null_val replace_null) \<le> 256"
  shows "unat ` snd ` set relabel
           = {unat start ..<
                unat start + length (collapsed_values data values null_val replace_null)}
         \<and> length relabel = length (collapsed_values data values null_val replace_null)"
proof -
  let ?vs = "collapsed_values data values null_val replace_null"
  have rl: "relabel = zip ?vs (np_arange start (length ?vs))"
    using relabel_pixels_Inr(2) [OF ok] dict_zip_distinct [OF distinct_collapsed_values [OF d]]
    by simp
  then have "map snd relabel = np_arange start (length ?vs)"
    by (simp add: length_np_arange)
  then have "snd ` set relabel = set (np_arange start (length ?vs))"
    by (metis set_map)
  then have "unat ` snd ` set relabel = {unat start ..< unat start + length ?vs}"
    using unat_image_np_arange [OF fit] by simp
  moreover have "length relabel = length ?vs"
    using rl by (simp add: length_np_arange)
  ultimately show ?thesis by simp
qed

text \<open>
  The range of C4 at the DSWx codes: six codes are left once 255 is collapsed, and the
  image is \<open>0, \<dots>, 5\<close>.
\<close>

theorem relabel_pixels_range_dense_witness:
  "relabel_pixels [[1, 252, 255]] [0, 1, 2, 252, 253, 254, 255] 255 0 True 0
      = Inr ([[1, 3, 0]], [(0, 0), (1, 1), (2, 2), (252, 3), (253, 4), (254, 5)])
   \<and> distinct [0, 1, 2, 252, 253, 254, 255 :: uint8]
   \<and> unat (0 :: uint8)
        + length (collapsed_values [[1, 252, 255]] [0, 1, 2, 252, 253, 254, 255] 255 True) \<le> 256
   \<and> unat ` snd ` set [(0, 0), (1, 1), (2, 2), (252, 3), (253, 4), (254, 5 :: uint8)]
        = {0 ..< 6}"
proof -
  have run: "relabel_pixels [[1, 252, 255]] [0, 1, 2, 252, 253, 254, 255] 255 0 True 0
      = Inr ([[1, 3, 0]], [(0, 0), (1, 1), (2, 2), (252, 3), (253, 4), (254, 5)])"
    by code_simp
  have d: "distinct [0, 1, 2, 252, 253, 254, 255 :: uint8]"
    by simp
  have len: "length (collapsed_values [[1, 252, 255]] [0, 1, 2, 252, 253, 254, 255] 255 True) = 6"
    by code_simp
  have fit: "unat (0 :: uint8)
        + length (collapsed_values [[1, 252, 255]] [0, 1, 2, 252, 253, 254, 255] 255 True) \<le> 256"
    by (simp add: len)
  from relabel_pixels_range_dense [OF run d fit, THEN conjunct1] run d fit
  show ?thesis
    by (simp add: len)
qed

text \<open>
  Claim C4 as stated fails when a code is supplied twice: for the codes \<open>0, 0, 1\<close> the
  second pair written for key 0 replaces the first, so three codes yield the dictionary
  \<open>{0: 1, 1: 2}\<close>, whose image misses the first label 0. It also fails when the 8-bit
  labels wrap around: three distinct codes from \<open>start = 254\<close> get the labels
  \<open>254, 255, 0\<close>, and the interval from 254 up to 257 contains 256.
\<close>

theorem relabel_pixels_range_dense_counterexample:
  "relabel_pixels [[0, 1]] [0, 0, 1] 255 1 True 0 = Inr ([[2, 2]], [(0, 1), (1, 2)])
   \<and> collapsed_values [[0, 1]] [0, 0, 1] 255 True = [0, 0, 1]
   \<and> (0 :: uint8) \<notin> snd ` set [(0, 1), (1, 2 :: uint8)]
   \<and> relabel_pixels [[1, 2, 3]] [1, 2, 3] 255 0 True 254
        = Inr ([[254, 255, 0]], [(1, 254), (2, 255), (3, 0)])
   \<and> distinct [1, 2, 3 :: uint8]
   \<and> unat (254 :: uint8) + length (collapsed_values [[1, 2, 3]] [1, 2, 3] 255 True) = 257
   \<and> (256 :: nat) \<notin> unat ` snd ` set [(1, 254), (2, 255), (3, 0 :: uint8)]"
  by code_simp

section \<open>Order of the new labels\<close>

text \<open>
  Claim C5, as the code has it. When the new labels do not pass 255
  (\<open>start + n \<le> 256\<close>), the returned dictionary is strictly monotone: of two entries,
  the one with the smaller code has the smaller new label. Repeated codes do not matter.
\<close>

theorem relabel_pixels_monotone:
  assumes ok: "relabel_pixels data values null_val transparent_val replace_null start
                 = Inr (new_data, relabel)"
    and fit: "unat start + length (collapsed_values data values null_val replace_null) \<le> 256"
    and i: "(code_i, new_i) \<in> set relabel"
    and j: "(code_j, new_j) \<in> set relabel"
    and lt: "code_i < code_j"
  shows "new_i < new_j"
proof -
  let ?vs = "collapsed_values data values null_val replace_null"
  let ?nv = "np_arange start (length ?vs)"
  have sub: "set relabel \<subseteq> set (zip ?vs ?nv)"
    using relabel_pixels_Inr(2) [OF ok] set_dict_zip [of ?vs ?nv] by simp
  from i sub have "(code_i, new_i) \<in> set (zip ?vs ?nv)"
    by blast
  then obtain a where a: "a < length ?vs" "?vs ! a = code_i" "?nv ! a = new_i"
    unfolding in_set_zip by auto
  from j sub have "(code_j, new_j) \<in> set (zip ?vs ?nv)"
    by blast
  then obtain b where b: "b < length ?vs" "?vs ! b = code_j" "?nv ! b = new_j"
    unfolding in_set_zip by auto
  have "a < b"
  proof (rule ccontr)
    assume "\<not> a < b"
    then have "b \<le> a" by simp
    then have "?vs ! b \<le> ?vs ! a"
      using sorted_collapsed_values a(1) by (simp add: sorted_nth_mono)
    with a(2) b(2) lt show False by simp
  qed
  moreover have "unat new_i = unat start + a"
    using a nth_np_arange [of a "length ?vs" start] unat_np_arange [OF fit a(1)] by simp
  moreover have "unat new_j = unat start + b"
    using b nth_np_arange [of b "length ?vs" start] unat_np_arange [OF fit b(1)] by simp
  ultimately show ?thesis
    by (simp add: word_less_nat_alt)
qed

text \<open>
  Monotonicity of C5 at the DSWx codes: the entries for 2 and 252 are mapped to 2 and 3.
\<close>

theorem relabel_pixels_monotone_witness:
  "relabel_pixels [[1, 252, 255]] [0, 1, 2, 252, 253, 254, 255] 255 0 True 0
      = Inr ([[1, 3, 0]], [(0, 0), (1, 1), (2, 2), (252, 3), (253, 4), (254, 5)])
   \<and> unat (0 :: uint8)
        + length (collapsed_values [[1, 252, 255]] [0, 1, 2, 252, 253, 254, 255] 255 True) \<le> 256
   \<and> (2, 2) \<in> set [(0, 0), (1, 1), (2, 2), (252, 3), (253, 4), (254, 5 :: uint8)]
   \<and> (252, 3) \<in> set [(0, 0), (1, 1), (2, 2), (252, 3), (253, 4), (254, 5 :: uint8)]
   \<and> (2 :: uint8) < 252 \<and> (2 :: uint8) < 3"
proof -
  have run: "relabel_pixels [[1, 252, 255]] [0, 1, 2, 252, 253, 254, 255] 255 0 True 0
      = Inr ([[1, 3, 0]], [(0, 0), (1, 1), (2, 2), (252, 3), (253, 4), (254, 5)])"
    by code_simp
  have len: "length (collapsed_values [[1, 252, 255]] [0, 1, 2, 252, 253, 254, 255] 255 True) = 6"
    by code_simp
  have fit: "unat (0 :: uint8)
        + length (collapsed_values [[1, 252, 255]] [0, 1, 2, 252, 253, 254, 255] 255 True) \<le> 256"
    by (simp add: len)
  have i: "(2, 2) \<in> set [(0, 0), (1, 1), (2, 2), (252, 3), (253, 4), (254, 5 :: uint8)]"
    by simp
  have j: "(252, 3) \<in> set [(0, 0), (1, 1), (2, 2), (252, 3), (253, 4), (254, 5 :: uint8)]"
    by simp
  have lt: "(2 :: uint8) < 252"
    by code_simp
  from relabel_pixels_monotone [OF run fit i j lt] run fit i j lt
  show ?thesis
    by simp
qed

text \<open>
  Claim C5 as stated fails when the 8-bit labels wrap around: from \<open>start = 254\<close> the
  three labels are \<open>254, 255, 0\<close>, so code 2 gets 255 and the larger code 3 gets 0.
\<close>

theorem relabel_pixels_monotone_counterexample:
  "relabel_pixels [[1, 2, 3]] [1, 2, 3] 255 0 True 254
      = Inr ([[254, 255, 0]], [(1, 254), (2, 255), (3, 0)])
   \<and> (2 :: uint8) < 3 \<and> \<not> (255 :: uint8) < 0"
  by code_simp

section \<open>The table of search results is never empty\<close>

lemma length_granule_rows: "length (granule_rows props g t) = length (assets g)"
  by (simp add: granule_rows_def)

lemma length_all_rows:
  "all_rows props gs = Inr rs \<Longrightarrow> length rs = sum_list (map (\<lambda>g. length (assets g)) gs)"
proof (induction gs arbitrary: rs)
  case Nil
  then show ?case by simp
next
  case (Cons g gs)
  from Cons.prems obtain t rs' where t: "tile_id g = Inr t"
    and rs': "all_rows props gs = Inr rs'"
    and rs: "rs = granule_rows props g t @ rs'"
    by (auto split: sum.splits)
  from Cons.IH [OF rs'] rs show ?case
    by (simp add: length_granule_rows)
qed

text \<open>
  Claim C10. \<^verbatim>\<open>search_to_dataframe\<close> fails with its first assertion on an empty
  list of granules. When it returns a table, the list of granules was not empty, the table
  has at least one row, and it has one row for each pair of a granule and one of its
  assets.
\<close>

theorem search_to_dataframe_nonempty:
  "search_to_dataframe ([] :: 'v granule list)
     = Inl (AssertionError ''Error: empty list of search results'')
   \<and> (\<forall>df. search_to_dataframe (granules :: 'v granule list) = Inr df \<longrightarrow>
          granules \<noteq> []
        \<and> 1 \<le> length (data_rows df)
        \<and> length (data_rows df) = sum_list (map (\<lambda>g. length (assets g)) granules))"
proof (intro conjI allI impI)
  show "search_to_dataframe ([] :: 'v granule list)
     = Inl (AssertionError ''Error: empty list of search results'')"
    by (simp add: search_to_dataframe_def)
next
  fix df
  assume ok: "search_to_dataframe granules = Inr df"
  then show "granules \<noteq> []"
    by (auto simp: search_to_dataframe_def)
  from ok obtain rws where rws: "all_rows
          (remdups (concat (map (\<lambda>g. map fst (properties g)) granules))) granules = Inr rws"
    and ne: "rws \<noteq> []" and df: "data_rows df = rws"
    by (auto simp: search_to_dataframe_def Let_def split: if_splits sum.splits)
  from ne df show "1 \<le> length (data_rows df)"
    by (cases rws) simp_all
  from length_all_rows [OF rws] df
  show "length (data_rows df) = sum_list (map (\<lambda>g. length (assets g)) granules)"
    by simp
qed

text \<open>
  C10 on two granules with two assets and one asset: a table of three rows.
\<close>

theorem search_to_dataframe_nonempty_witness:
  "search_to_dataframe
     [\<lparr>item_id = ''OPERA_L3_DIST_T10TEM_x'', properties = [(''datetime'', 1 :: nat)],
       assets = [(''VEG-DIST-STATUS'', ''https://a''), (''VEG-ANOM'', ''https://b'')]\<rparr>,
      \<lparr>item_id = ''OPERA_L3_DIST_T10TEN_x'', properties = [(''cloud'', 5)],
       assets = [(''VEG-DIST-STATUS'', ''https://c'')]\<rparr>]
   = Inr \<lparr>columns = [''datetime'', ''cloud'', ''asset'', ''href'', ''tile_id''],
          data_rows =
            [[Prop 1, PyNone, Str ''VEG-DIST-STATUS'', Str ''https://a'', Str ''T10TEM''],
             [Prop 1, PyNone, Str ''VEG-ANOM'', Str ''https://b'', Str ''T10TEM''],
             [PyNone, Prop 5, Str ''VEG-DIST-STATUS'', Str ''https://c'', Str ''T10TEN'']]\<rparr>
   \<and> (1 :: nat) \<le> 3"
proof -
  have run: "search_to_dataframe
     [\<lparr>item_id = ''OPERA_L3_DIST_T10TEM_x'', properties = [(''datetime'', 1 :: nat)],
       assets = [(''VEG-DIST-STATUS'', ''https://a''), (''VEG-ANOM'', ''https://b'')]\<rparr>,
      \<lparr>item_id = ''OPERA_L3_DIST_T10TEN_x'', properties = [(''cloud'', 5)],
       assets = [(''VEG-DIST-STATUS'', ''https://c'')]\<rparr>]
   = Inr \<lparr>columns = [''datetime'', ''cloud'', ''asset'', ''href'', ''tile_id''],
          data_rows =
            [[Prop 1, PyNone, Str ''VEG-DIST-STATUS'', Str ''https://a'', Str ''T10TEM''],
             [Prop 1, PyNone, Str ''VEG-ANOM'', Str ''https://b'', Str ''T10TEM''],
             [PyNone, Prop 5, Str ''VEG-DIST-STATUS'', Str ''https://c'', Str ''T10TEN'']]\<rparr>"
    by code_simp
  from search_to_dataframe_nonempty [THEN conjunct2, rule_format, OF run] run
  show ?thesis
    by simp
qed

section \<open>Stacking keeps the order of the rows\<close>









section \<open>Pixels outside the code list\<close>

lemma relabel_loop_px: "relabel_loop items d = map (map (relabel_px items)) d"
proof (induction items d rule: relabel_loop.induct)
  case (1 new_data)
  have "relabel_px [] = (\<lambda>p. p)"
    by (rule ext) simp
  then show ?case
    by (simp add: map_idI)
next
  case (2 old new items new_data)
  show ?case
  proof (cases "new = old")
    case True
    have "relabel_px ((old, new) # items) = relabel_px items"
      by (rule ext) (simp add: True)
    with 2 True show ?thesis
      by simp
  next
    case False
    with 2 show ?thesis
      by (simp add: where_ne_def comp_def if_distrib [of "relabel_px items"] cong: if_cong)
  qed
qed

lemma relabel_px_not_key: "p \<notin> fst ` set items \<Longrightarrow> relabel_px items p = p"
  by (induction items p rule: relabel_px.induct) auto

lemma nth_map_map:
  "i < length d \<Longrightarrow> j < length (d ! i) \<Longrightarrow> map (map f) d ! i ! j = f (d ! i ! j)"
  by simp

lemma keys_relabel_subset:
  assumes "relabel_pixels data values null_val transparent_val replace_null start
             = Inr (new_data, relabel)"
  shows "fst ` set relabel \<subseteq> set (collapsed_values data values null_val replace_null)"
proof -
  let ?vs = "collapsed_values data values null_val replace_null"
  have "set relabel \<subseteq> set (zip ?vs (np_arange start (length ?vs)))"
    using relabel_pixels_Inr(2) [OF assms] set_dict_zip by metis
  then show ?thesis
    by (auto dest!: subsetD set_zip_leftD)
qed

text \<open>
  Claim C9, as the code has it. A successful call keeps the shape of the array, and a
  pixel whose value is not among the sorted, missing-collapsed codes keeps its value,
  unless \<^verbatim>\<open>replace_null\<close> is set and the pixel holds the missing code (that pixel
  is rewritten to the transparent code first). Such a pixel never makes the call fail:
  with a non-empty list of supplied codes, the same call on any other array succeeds too
  and returns the same dictionary.
\<close>

theorem relabel_pixels_unlisted_unchanged:
  assumes ok: "relabel_pixels data values null_val transparent_val replace_null start
                 = Inr (new_data, relabel)"
  shows "length new_data = length data
     \<and> (\<forall>i < length data. length (new_data ! i) = length (data ! i)
          \<and> (\<forall>j < length (data ! i).
                data ! i ! j \<notin> set (collapsed_values data values null_val replace_null)
                \<longrightarrow> \<not> (replace_null \<and> data ! i ! j = null_val)
                \<longrightarrow> new_data ! i ! j = data ! i ! j))
     \<and> (\<forall>data'. values \<noteq> [] \<longrightarrow>
          (\<exists>new_data'. relabel_pixels data' values null_val transparent_val replace_null start
                          = Inr (new_data', relabel)))"
proof (intro conjI allI impI)
  let ?d0 = "if replace_null then where_ne data null_val transparent_val else data"
  have nd: "new_data = map (map (relabel_px relabel)) ?d0"
    using relabel_pixels_Inr(3) [OF ok] by (simp add: relabel_loop_px)
  have len0: "length ?d0 = length data"
    by (simp add: where_ne_def)
  show "length new_data = length data"
    by (simp add: nd len0)
  fix i
  assume i: "i < length data"
  have leni: "length (?d0 ! i) = length (data ! i)"
    using i by (simp add: where_ne_def)
  show "length (new_data ! i) = length (data ! i)"
    using i by (simp add: nd len0 leni)
  fix j
  assume j: "j < length (data ! i)"
    and unlisted: "data ! i ! j \<notin> set (collapsed_values data values null_val replace_null)"
    and notnull: "\<not> (replace_null \<and> data ! i ! j = null_val)"
  have same: "?d0 ! i ! j = data ! i ! j"
    using i j notnull by (auto simp: where_ne_def)
  have "new_data ! i ! j = relabel_px relabel (?d0 ! i ! j)"
    unfolding nd using i j len0 leni by (intro nth_map_map) simp_all
  also have "\<dots> = data ! i ! j"
  proof -
    have "data ! i ! j \<notin> fst ` set relabel"
      using unlisted keys_relabel_subset [OF ok] by blast
    then show ?thesis
      by (simp add: same relabel_px_not_key)
  qed
  finally show "new_data ! i ! j = data ! i ! j" .
next
  fix data'
  assume ne: "values \<noteq> []"
  have cv: "collapsed_values data' values null_val replace_null
              = collapsed_values data values null_val replace_null"
    using ne by (simp add: collapsed_values_def sorted_values_def)
  show "\<exists>new_data'. relabel_pixels data' values null_val transparent_val replace_null start
                          = Inr (new_data', relabel)"
    using relabel_pixels_Inr(1,2) [OF ok]
    by (simp add: relabel_pixels_unfold [of data'] cv Let_def)
qed

text \<open>
  C9 at a pixel of value 7, which is not a DSWx code: it stays 7, and the call on another
  array, holding the unlisted value 9, succeeds with the same dictionary.
\<close>

theorem relabel_pixels_unlisted_unchanged_witness:
  "relabel_pixels [[0, 7, 252]] [0, 1, 2, 252, 253, 254, 255] 255 0 True 0
     = Inr ([[0, 7, 3]], [(0, 0), (1, 1), (2, 2), (252, 3), (253, 4), (254, 5)])
   \<and> (7 :: uint8) \<notin> set (collapsed_values [[0, 7, 252]] [0, 1, 2, 252, 253, 254, 255] 255 True)
   \<and> (7 :: uint8) \<noteq> 255
   \<and> [[0, 7, 3 :: uint8]] ! 0 ! 1 = [[0, 7, 252]] ! 0 ! 1
   \<and> [0, 1, 2, 252, 253, 254, 255 :: uint8] \<noteq> []
   \<and> (\<exists>new_data'. relabel_pixels [[9]] [0, 1, 2, 252, 253, 254, 255] 255 0 True 0
          = Inr (new_data', [(0, 0), (1, 1), (2, 2), (252, 3), (253, 4), (254, 5)]))"
proof -
  have run: "relabel_pixels [[0, 7, 252]] [0, 1, 2, 252, 253, 254, 255] 255 0 True 0
     = Inr ([[0, 7, 3]], [(0, 0), (1, 1), (2, 2), (252, 3), (253, 4), (254, 5)])"
    by code_simp
  have unlisted: "[[0, 7, 252 :: uint8]] ! 0 ! 1
      \<notin> set (collapsed_values [[0, 7, 252]] [0, 1, 2, 252, 253, 254, 255] 255 True)"
    by code_simp
  have notnull: "\<not> (True \<and> [[0, 7, 252 :: uint8]] ! 0 ! 1 = 255)"
    by simp
  have i: "0 < length [[0, 7, 252 :: uint8]]" and j: "1 < length ([[0, 7, 252 :: uint8]] ! 0)"
    by simp_all
  have ne: "[0, 1, 2, 252, 253, 254, 255 :: uint8] \<noteq> []"
    by simp
  note inst = relabel_pixels_unlisted_unchanged [OF run]
  have px: "[[0, 7, 3 :: uint8]] ! 0 ! 1 = [[0, 7, 252]] ! 0 ! 1"
    using inst [THEN conjunct2, THEN conjunct1, rule_format, OF i, THEN conjunct2,
               rule_format, OF j unlisted notnull] .
  have other: "\<exists>new_data'. relabel_pixels [[9]] [0, 1, 2, 252, 253, 254, 255] 255 0 True 0
          = Inr (new_data', [(0, 0), (1, 1), (2, 2), (252, 3), (253, 4), (254, 5)])"
    using inst [THEN conjunct2, THEN conjunct2, rule_format, OF ne] .
  from run unlisted notnull px ne other show ?thesis
    by simp
qed

text \<open>
  Claim C9 as stated fails at a pixel that holds the missing code: 255 is neither one of
  the supplied codes \<open>0, 1\<close> nor a key of the returned dictionary, yet the pixel is
  rewritten to 0.
\<close>

theorem relabel_pixels_unlisted_counterexample:
  "relabel_pixels [[255, 1]] [0, 1] 255 0 True 0 = Inr ([[0, 1]], [(0, 0), (1, 1)])
   \<and> (255 :: uint8) \<notin> set [0, 1]
   \<and> (255 :: uint8) \<notin> set (collapsed_values [[255, 1]] [0, 1] 255 True)
   \<and> (255 :: uint8) \<notin> fst ` set [(0, 0), (1, 1 :: uint8)]
   \<and> [[0, 1 :: uint8]] ! 0 ! 0 \<noteq> [[255, 1]] ! 0 ! 0"
  by code_simp

section \<open>Collapsing the missing code\<close>








section \<open>Undoing a relabelling\<close>

text \<open>
  Claim C2 at \<^verbatim>\<open>start=1\<close>. All pixels of the array \<open>0, 1\<close> are among the supplied
  codes \<open>0, 1\<close> and none is the missing code. The dictionary returned is
  \<open>{0: 1, 1: 2}\<close>, but the loop first turns 0 into 1 and then every 1 into 2, so both
  pixels end as 2 and the inverse dictionary gives back \<open>1, 1\<close>, not \<open>0, 1\<close>.
\<close>

theorem relabel_pixels_round_trip_failing_input:
  "relabel_pixels [[0, 1]] [0, 1] 255 1 True 1 = Inr ([[2, 2]], [(0, 1), (1, 2)])
   \<and> set (concat [[0, 1 :: uint8]]) \<subseteq> set [0, 1]
   \<and> invert_relabel [(0, 1), (1, 2)] = [(1, 0), (2, 1)]
   \<and> apply_dict (invert_relabel [(0, 1), (1, 2)]) [[2, 2]] = [[1, 1]]
   \<and> [[1, 1]] \<noteq> [[0, 1 :: uint8]]"
  by code_simp

subsection \<open>Where the loop agrees with the dictionary\<close>

lemma relabel_px_map_of:
  "sorted_wrt (<) (map fst items) \<Longrightarrow> \<forall>e \<in> set items. snd e \<le> fst e \<Longrightarrow>
     relabel_px items p = (case map_of items p of None \<Rightarrow> p | Some v \<Rightarrow> v)"
proof (induction items arbitrary: p)
  case Nil
  show ?case by simp
next
  case (Cons e items)
  obtain k v where e: "e = (k, v)" by (cases e)
  have srt: "sorted_wrt (<) (map fst items)" and above: "\<forall>k' \<in> fst ` set items. k < k'"
    using Cons.prems(1) e by auto
  have le: "\<forall>e \<in> set items. snd e \<le> fst e" and vk: "v \<le> k"
    using Cons.prems(2) e by auto
  note IH = Cons.IH [OF srt le]
  show ?case
  proof (cases "p = k")
    case True
    have "v \<notin> fst ` set items"
      using above vk by auto
    then have "relabel_px items v = v"
      by (rule relabel_px_not_key)
    then show ?thesis
      by (simp add: e True)
  next
    case False
    then show ?thesis
      by (simp add: e IH)
  qed
qed

lemma strict_sorted_unat_lower:
  fixes vs :: "uint8 list"
  assumes "sorted_wrt (<) vs" and "\<forall>v \<in> set vs. start \<le> v" and "i < length vs"
  shows "unat start + i \<le> unat (vs ! i)"
  using assms(3)
proof (induction i)
  case 0
  then have "start \<le> vs ! 0"
    using assms(2) by simp
  then show ?case
    by (simp add: word_le_nat_alt)
next
  case (Suc i)
  then have "vs ! i < vs ! Suc i"
    using assms(1) by (simp add: sorted_wrt_nth_less)
  then have "unat (vs ! i) < unat (vs ! Suc i)"
    by (simp add: word_less_nat_alt)
  moreover have "unat start + i \<le> unat (vs ! i)"
    using Suc by simp
  ultimately show ?case
    by simp
qed

lemma strict_sorted_fit:
  fixes vs :: "uint8 list"
  assumes "sorted_wrt (<) vs" and "\<forall>v \<in> set vs. start \<le> v"
  shows "unat start + length vs \<le> 256"
proof (cases vs rule: rev_cases)
  case Nil
  have "unat start < 256"
    using unsigned_less [of start] by simp
  then show ?thesis
    using Nil by simp
next
  case (snoc ys y)
  then have "unat start + (length vs - 1) \<le> unat (vs ! (length vs - 1))"
    using strict_sorted_unat_lower [OF assms, of "length vs - 1"] by simp
  moreover have "unat (vs ! (length vs - 1)) < 256"
    using unsigned_less [of "vs ! (length vs - 1)"] by simp
  ultimately show ?thesis
    using snoc by simp
qed

lemma distinct_np_arange:
  fixes start :: uint8
  assumes "unat start + n \<le> 256"
  shows "distinct (np_arange start n)"
proof -
  have "inj_on (\<lambda>i. start + of_nat i) {0..<n}"
  proof (rule inj_onI)
    fix a b
    assume "a \<in> {0..<n}" "b \<in> {0..<n}" and eq: "start + of_nat a = start + of_nat b"
    then have a: "a < n" and b: "b < n"
      by simp_all
    from eq have "unat (start + of_nat a) = unat (start + of_nat b)"
      by (rule arg_cong)
    then have "unat start + a = unat start + b"
      by (simp only: unat_np_arange [OF assms a] unat_np_arange [OF assms b])
    then show "a = b" by simp
  qed
  then show ?thesis
    by (simp add: np_arange_def distinct_map)
qed

text \<open>
  When the supplied codes are pairwise distinct and \<open>start\<close> is not above any code left
  after missing-collapse (as for the default \<open>start = 0\<close>), no new label is the key of a
  later entry, the loop relabels every pixel as the dictionary says, and the inverse
  dictionary gives back every pixel whose value is one of those codes.
\<close>

lemma relabel_pixels_round_trip:
  assumes ok: "relabel_pixels data values null_val transparent_val replace_null start
                 = Inr (new_data, relabel)"
    and d: "distinct values"
    and low: "\<forall>v \<in> set (collapsed_values data values null_val replace_null). start \<le> v"
  shows "length (apply_dict (invert_relabel relabel) new_data) = length data
     \<and> (\<forall>i < length data.
          length (apply_dict (invert_relabel relabel) new_data ! i) = length (data ! i)
          \<and> (\<forall>j < length (data ! i).
                data ! i ! j \<in> set (collapsed_values data values null_val replace_null)
                \<longrightarrow> apply_dict (invert_relabel relabel) new_data ! i ! j = data ! i ! j))"
proof -
  let ?vs = "collapsed_values data values null_val replace_null"
  let ?nv = "np_arange start (length ?vs)"
  let ?d0 = "if replace_null then where_ne data null_val transparent_val else data"
  let ?undo = "\<lambda>p. case map_of (invert_relabel relabel) p of None \<Rightarrow> p | Some q \<Rightarrow> q"
  have dv: "distinct ?vs"
    by (rule distinct_collapsed_values [OF d])
  have strict: "sorted_wrt (<) ?vs"
    using dv sorted_collapsed_values [of "data" "values" null_val replace_null]
    by (simp add: strict_sorted_iff)
  have fit: "unat start + length ?vs \<le> 256"
    by (rule strict_sorted_fit [OF strict low])
  have rl: "relabel = zip ?vs ?nv"
    using relabel_pixels_Inr(2) [OF ok] dict_zip_distinct [OF dv] by simp
  have dn: "distinct ?nv"
    by (rule distinct_np_arange [OF fit])
  have inv: "invert_relabel relabel = zip ?nv ?vs"
    using dict_zip_distinct [OF dn, of ?vs]
    by (simp add: invert_relabel_def rl length_np_arange)
  have le: "\<forall>e \<in> set relabel. snd e \<le> fst e"
  proof
    fix e
    assume "e \<in> set relabel"
    then obtain a where a: "a < length ?vs" "?vs ! a = fst e" "?nv ! a = snd e"
      unfolding rl in_set_zip by auto
    have "unat (snd e) = unat start + a"
      using a nth_np_arange [of a "length ?vs" start] unat_np_arange [OF fit a(1)] by simp
    moreover have "unat start + a \<le> unat (fst e)"
      using strict_sorted_unat_lower [OF strict low a(1)] a(2) by simp
    ultimately show "snd e \<le> fst e"
      by (simp add: word_le_nat_alt)
  qed
  have keys: "map fst relabel = ?vs"
    by (simp add: rl length_np_arange)
  have px: "relabel_px relabel p = (case map_of relabel p of None \<Rightarrow> p | Some v \<Rightarrow> v)" for p
    using relabel_px_map_of [of relabel p] strict le by (simp add: keys)
  have nd: "new_data = map (map (relabel_px relabel)) ?d0"
    using relabel_pixels_Inr(3) [OF ok] by (simp add: relabel_loop_px)
  have len0: "length ?d0 = length data"
    by (simp add: where_ne_def)
  have bk: "apply_dict (invert_relabel relabel) new_data
              = map (map (\<lambda>p. ?undo (relabel_px relabel p))) ?d0"
    by (simp add: apply_dict_def nd comp_def)
  show ?thesis
  proof (intro conjI allI impI)
    show "length (apply_dict (invert_relabel relabel) new_data) = length data"
      by (simp add: bk len0)
    fix i
    assume i: "i < length data"
    have leni: "length (?d0 ! i) = length (data ! i)"
      using i by (simp add: where_ne_def)
    show "length (apply_dict (invert_relabel relabel) new_data ! i) = length (data ! i)"
      using i by (simp add: bk len0 leni)
    fix j
    assume j: "j < length (data ! i)"
      and listed: "data ! i ! j \<in> set ?vs"
    from listed obtain a where a: "a < length ?vs" "?vs ! a = data ! i ! j"
      by (auto simp: in_set_conv_nth)
    have notnull: "\<not> (replace_null \<and> data ! i ! j = null_val)"
      using listed null_collapsed_values [of null_val "data" "values"] by auto
    have same: "?d0 ! i ! j = data ! i ! j"
      using i j notnull by (auto simp: where_ne_def)
    have fwd: "map_of relabel (data ! i ! j) = Some (?nv ! a)"
      using map_of_zip_nth [of ?vs ?nv a] dv a by (simp add: rl length_np_arange)
    have bwd: "map_of (invert_relabel relabel) (?nv ! a) = Some (data ! i ! j)"
      using map_of_zip_nth [of ?nv ?vs a] dn a by (simp add: inv length_np_arange)
    have "apply_dict (invert_relabel relabel) new_data ! i ! j
            = ?undo (relabel_px relabel (?d0 ! i ! j))"
      unfolding bk using i j len0 leni by (intro nth_map_map) simp_all
    also have "\<dots> = data ! i ! j"
      by (simp add: same px fwd bwd)
    finally show "apply_dict (invert_relabel relabel) new_data ! i ! j = data ! i ! j" .
  qed
qed

end
